theory Spec2Isabelle
  imports Complex_Main "HOL-Library.AList" "HOL-Library.Multiset"
begin

section \<open>Strings and characters\<close>

text \<open>
  A JavaScript string is a sequence of UTF-16 code units. The model uses \<^typ>\<open>string\<close>,
  a list of 8-bit characters: the code units below 256. The character classes of the regular
  expressions of \<^verbatim>\<open>main.js\<close> are written out on that range.
\<close>

definition isSpace :: "char \<Rightarrow> bool" where
  \<comment> \<open>the class \<^verbatim>\<open>\s\<close>, which is also what \<^verbatim>\<open>String.prototype.trim\<close> strips:
      TAB, LF, VT, FF, CR, SPACE and NO-BREAK SPACE\<close>
  "isSpace c = (let n = (of_char c :: nat) in (9 \<le> n \<and> n \<le> 13) \<or> n = 32 \<or> n = 160)"

definition isLower :: "char \<Rightarrow> bool" where
  "isLower c = (let n = (of_char c :: nat) in 97 \<le> n \<and> n \<le> 122)"

definition isUpper :: "char \<Rightarrow> bool" where
  "isUpper c = (let n = (of_char c :: nat) in 65 \<le> n \<and> n \<le> 90)"

definition isDigit :: "char \<Rightarrow> bool" where
  "isDigit c = (let n = (of_char c :: nat) in 48 \<le> n \<and> n \<le> 57)"

definition isNameStart :: "char \<Rightarrow> bool" where
  \<comment> \<open>\<^verbatim>\<open>[a-z0-9_$]\<close> under the flag \<^verbatim>\<open>i\<close>\<close>
  "isNameStart c = (isLower c \<or> isUpper c \<or> isDigit c \<or> c = CHR ''_'' \<or> c = CHR ''$'')"

definition isNameChar :: "char \<Rightarrow> bool" where
  \<comment> \<open>\<^verbatim>\<open>[\.a-z0-9_]\<close> under the flag \<^verbatim>\<open>i\<close>\<close>
  "isNameChar c = (c = CHR ''.'' \<or> isLower c \<or> isUpper c \<or> isDigit c \<or> c = CHR ''_'')"

definition isTagChar :: "char \<Rightarrow> bool" where
  \<comment> \<open>\<^verbatim>\<open>[a-zA-Z0-9-]\<close>\<close>
  "isTagChar c = (isLower c \<or> isUpper c \<or> isDigit c \<or> c = CHR ''-'')"

definition trim :: "string \<Rightarrow> string" where
  "trim s = rev (dropWhile isSpace (rev (dropWhile isSpace s)))"

fun showNat :: "nat \<Rightarrow> string" where
  "showNat n =
     (if n < 10 then [char_of (48 + n)]
      else showNat (n div 10) @ [char_of (48 + n mod 10)])"

declare showNat.simps [simp del]

section \<open>The tokenizer\<close>

text \<open>
  The settings object is \<^verbatim>\<open>defaultSettings\<close> for the whole life of the module (it is copied
  once and never assigned): \<^verbatim>\<open>start\<close> is \<^verbatim>\<open>[\<close>, \<^verbatim>\<open>end\<close> is \<^verbatim>\<open>]\<close> and \<^verbatim>\<open>path\<close> is
  \<^verbatim>\<open>[a-z0-9_$][\.a-z0-9_]*\<close>.
\<close>

definition settings_start :: string where
  "settings_start = ''[''"

definition settings_end :: string where
  "settings_end = '']''"

datatype segment =
    Static string
  | Token string string  \<comment> \<open>\<^verbatim>\<open>flag\<close>, then \<^verbatim>\<open>value\<close>\<close>

text \<open>
  \<^verbatim>\<open>matchToken s\<close> is the pattern of \<^verbatim>\<open>tokenizeTemplate\<close> anchored at the head of \<open>s\<close>:
  \<^verbatim>\<open>\[\s*([!\/]?)\s*([a-z0-9_$][\.a-z0-9_]*)\s*\]\<close>, flags \<^verbatim>\<open>gi\<close>. It returns the two
  capture groups and the text after the match. The classes that follow one another are
  disjoint, so the greedy match is the only one and backtracking finds no other.
\<close>

definition takeFlag :: "string \<Rightarrow> string \<times> string" where
  \<comment> \<open>\<^verbatim>\<open>([!\/]?)\<close>\<close>
  "takeFlag r =
     (case r of
        [] \<Rightarrow> ([], [])
      | f # r' \<Rightarrow> if f = CHR ''!'' \<or> f = CHR ''/'' then ([f], r') else ([], r))"

definition takeName :: "string \<Rightarrow> (string \<times> string) option" where
  \<comment> \<open>\<^verbatim>\<open>([a-z0-9_$][\.a-z0-9_]*)\<close>\<close>
  "takeName r =
     (case r of
        [] \<Rightarrow> None
      | n # r' \<Rightarrow>
          if isNameStart n then Some (n # takeWhile isNameChar r', dropWhile isNameChar r')
          else None)"

definition takeEnd :: "string \<Rightarrow> string option" where
  "takeEnd r = (case r of [] \<Rightarrow> None | e # r' \<Rightarrow> if [e] = settings_end then Some r' else None)"

definition matchToken :: "string \<Rightarrow> (string \<times> string \<times> string) option" where
  "matchToken s =
     (case s of
        [] \<Rightarrow> None
      | c # r \<Rightarrow>
          if [c] \<noteq> settings_start then None
          else
            (case takeFlag (dropWhile isSpace r) of
               (flag, r2) \<Rightarrow>
                 (case takeName (dropWhile isSpace r2) of
                    None \<Rightarrow> None
                  | Some (name, r3) \<Rightarrow>
                      (case takeEnd (dropWhile isSpace r3) of
                         None \<Rightarrow> None
                       | Some rest \<Rightarrow> Some (flag, name, rest)))))"

lemma length_dropWhile_le': "length (dropWhile P xs) \<le> length xs"
  by (induction xs) auto

lemma takeFlag_length: "takeFlag r = (flag, r') \<Longrightarrow> length flag + length r' = length r"
  by (cases r) (auto simp: takeFlag_def split: if_splits)

lemma takeName_length: "takeName r = Some (name, r') \<Longrightarrow> length name + length r' = length r"
proof (cases r)
  case Nil
  assume "takeName r = Some (name, r')"
  with Nil show ?thesis by (simp add: takeName_def)
next
  case (Cons n r0)
  assume "takeName r = Some (name, r')"
  with Cons have nm: "name = n # takeWhile isNameChar r0" and r': "r' = dropWhile isNameChar r0"
    by (auto simp: takeName_def split: if_splits)
  have "length (takeWhile isNameChar r0) + length (dropWhile isNameChar r0) = length r0"
    by (metis length_append takeWhile_dropWhile_id)
  with nm r' Cons show ?thesis by simp
qed

lemma takeEnd_length: "takeEnd r = Some r' \<Longrightarrow> Suc (length r') = length r"
  by (cases r) (auto simp: takeEnd_def split: if_splits)

lemma matchToken_shorter:
  assumes "matchToken s = Some (flag, name, rest)"
  shows "length rest + length flag + length name + 2 \<le> length s"
proof -
  from assms obtain c r where s: "s = c # r"
    by (cases s) (simp_all add: matchToken_def)
  obtain fl r2 where tf: "takeFlag (dropWhile isSpace r) = (fl, r2)"
    by (cases "takeFlag (dropWhile isSpace r)")
  from assms s tf obtain nm r3 where tn: "takeName (dropWhile isSpace r2) = Some (nm, r3)"
    by (cases "takeName (dropWhile isSpace r2)") (auto simp: matchToken_def split: if_splits)
  from assms s tf tn obtain rs where te: "takeEnd (dropWhile isSpace r3) = Some rs"
    by (cases "takeEnd (dropWhile isSpace r3)") (auto simp: matchToken_def split: if_splits)
  from assms s tf tn te have eqs: "flag = fl" "name = nm" "rest = rs"
    by (auto simp: matchToken_def split: if_splits)
  have a: "length fl + length r2 \<le> length r"
    using takeFlag_length [OF tf] length_dropWhile_le' [of isSpace r] by simp
  have b: "length nm + length r3 \<le> length r2"
    using takeName_length [OF tn] length_dropWhile_le' [of isSpace r2] by simp
  have c: "Suc (length rs) \<le> length r3"
    using takeEnd_length [OF te] length_dropWhile_le' [of isSpace r3] by simp
  from a b c s eqs show ?thesis by simp
qed

text \<open>
  The loop of \<^verbatim>\<open>tokenizeTemplate\<close>: \<^verbatim>\<open>pattern.exec\<close> finds the leftmost match at or after
  \<^verbatim>\<open>lastIndex\<close>. \<open>pending\<close> is the text between \<^verbatim>\<open>lastIndex\<close> and the position under
  the scan, the static segment pushed (when not empty) before the next token or at the end.
\<close>

function scanTokens :: "string \<Rightarrow> string \<Rightarrow> segment list" where
  "scanTokens pending [] = (if pending = [] then [] else [Static pending])"
| "scanTokens pending (c # r) =
     (case matchToken (c # r) of
        None \<Rightarrow> scanTokens (pending @ [c]) r
      | Some (flag, name, rest) \<Rightarrow>
          (if pending = [] then [] else [Static pending]) @ Token flag name # scanTokens [] rest)"
  by pat_completeness auto
termination
  by (relation "measure (\<lambda>(pending, s). length s)") (auto dest: matchToken_shorter)

definition tokenizeTemplate :: "string \<Rightarrow> segment list" where
  "tokenizeTemplate template = scanTokens [] template"

fun noTokenMatches :: "string \<Rightarrow> bool" where
  \<comment> \<open>the pattern matches at no position of the text\<close>
  "noTokenMatches [] = True"
| "noTokenMatches (c # r) = (matchToken (c # r) = None \<and> noTokenMatches r)"

lemma scanTokens_no_match:
  "noTokenMatches s \<Longrightarrow>
   scanTokens pending s = (if pending @ s = [] then [] else [Static (pending @ s)])"
  by (induction s arbitrary: pending) auto

text \<open>
  Claim C7, as stated, counts the empty template among the templates that give a single static
  segment holding the whole text. No token matches in the empty template, and its
  tokenization is the empty list: the remainder is pushed only when
  \<^verbatim>\<open>lastIndex < template.length\<close>.
\<close>

theorem tokenize_empty_counterexample:
  "noTokenMatches [] \<and> tokenizeTemplate [] = [] \<and> tokenizeTemplate [] \<noteq> [Static []]"
  by (simp add: tokenizeTemplate_def)

text \<open>
  The text each segment was read from: a static segment from its own value, a token from the
  text the pattern matched.
\<close>

function scanSpans :: "string \<Rightarrow> string \<Rightarrow> (segment \<times> string) list" where
  "scanSpans pending [] = (if pending = [] then [] else [(Static pending, pending)])"
| "scanSpans pending (c # r) =
     (case matchToken (c # r) of
        None \<Rightarrow> scanSpans (pending @ [c]) r
      | Some (flag, name, rest) \<Rightarrow>
          (if pending = [] then [] else [(Static pending, pending)])
          @ (Token flag name, take (length (c # r) - length rest) (c # r)) # scanSpans [] rest)"
  by pat_completeness auto
termination
  by (relation "measure (\<lambda>(pending, s). length s)") (auto dest: matchToken_shorter)

lemma dropWhile_suffix: "\<exists>pre. xs = pre @ dropWhile P xs \<and> list_all P pre"
proof -
  have "xs = takeWhile P xs @ dropWhile P xs" by simp
  moreover have "list_all P (takeWhile P xs)"
    by (simp add: list_all_iff) (meson set_takeWhileD)
  ultimately show ?thesis by blast
qed

lemma dropWhile_prefix_stop:
  "list_all P pre \<Longrightarrow> ys \<noteq> [] \<Longrightarrow> \<not> P (hd ys) \<Longrightarrow> dropWhile P (pre @ ys) = ys"
  by (induction pre) (auto simp: neq_Nil_conv)

lemma takeWhile_prefix_stop:
  "list_all P pre \<Longrightarrow> ys \<noteq> [] \<Longrightarrow> \<not> P (hd ys) \<Longrightarrow> takeWhile P (pre @ ys) = pre"
  by (induction pre) (auto simp: neq_Nil_conv)

lemma not_space_flag: "c = CHR ''!'' \<or> c = CHR ''/'' \<Longrightarrow> \<not> isSpace c"
  by (auto simp: isSpace_def)

lemma not_space_nameStart: "isNameStart c \<Longrightarrow> \<not> isSpace c"
  by (auto simp: isSpace_def isNameStart_def isLower_def isUpper_def isDigit_def Let_def)

lemma not_flag_nameStart: "isNameStart c \<Longrightarrow> c \<noteq> CHR ''!'' \<and> c \<noteq> CHR ''/''"
  by (auto simp: isNameStart_def isLower_def isUpper_def isDigit_def Let_def)

lemma end_not_space: "\<not> isSpace CHR '']''"
  by (simp add: isSpace_def)

lemma end_not_nameChar: "\<not> isNameChar CHR '']''"
  by (simp add: isNameChar_def isLower_def isUpper_def isDigit_def)

text \<open>A match is a prefix of the text, and that prefix alone matches with the same groups.\<close>

lemma matchToken_span:
  assumes "matchToken s = Some (flag, name, rest)"
  shows "\<exists>matched. s = matched @ rest \<and> matchToken matched = Some (flag, name, [])"
proof -
  from assms obtain c r where s: "s = c # r" and c: "[c] = settings_start"
    by (cases s) (auto simp: matchToken_def split: if_splits)
  obtain fl r2 where tf: "takeFlag (dropWhile isSpace r) = (fl, r2)"
    by (cases "takeFlag (dropWhile isSpace r)")
  from assms s tf obtain nm r3 where tn: "takeName (dropWhile isSpace r2) = Some (nm, r3)"
    by (cases "takeName (dropWhile isSpace r2)") (auto simp: matchToken_def split: if_splits)
  from assms s tf tn obtain rs where te: "takeEnd (dropWhile isSpace r3) = Some rs"
    by (cases "takeEnd (dropWhile isSpace r3)") (auto simp: matchToken_def split: if_splits)
  from assms s tf tn te have eqs: "flag = fl" "name = nm" "rest = rs"
    by (auto simp: matchToken_def split: if_splits)
  obtain w1 where w1: "r = w1 @ dropWhile isSpace r" "list_all isSpace w1"
    using dropWhile_suffix by blast
  obtain w2 where w2: "r2 = w2 @ dropWhile isSpace r2" "list_all isSpace w2"
    using dropWhile_suffix by blast
  obtain w3 where w3: "r3 = w3 @ dropWhile isSpace r3" "list_all isSpace w3"
    using dropWhile_suffix by blast
  from te have d3: "dropWhile isSpace r3 = CHR '']'' # rs"
    by (cases "dropWhile isSpace r3") (auto simp: takeEnd_def settings_end_def split: if_splits)
  from tn obtain n r4 where d2: "dropWhile isSpace r2 = n # r4" and n: "isNameStart n"
    and nm: "nm = n # takeWhile isNameChar r4" and r3: "r3 = dropWhile isNameChar r4"
    by (cases "dropWhile isSpace r2") (auto simp: takeName_def split: if_splits)
  have r4: "r4 = takeWhile isNameChar r4 @ r3"
    by (simp add: r3)
  have nameChars: "list_all isNameChar (takeWhile isNameChar r4)"
    by (simp add: list_all_iff) (meson set_takeWhileD)
  have d1: "dropWhile isSpace r = fl @ r2"
    using tf by (cases "dropWhile isSpace r") (auto simp: takeFlag_def split: if_splits)
  have fl_cases: "fl = [] \<or> fl = ''!'' \<or> fl = ''/''"
    using tf by (cases "dropWhile isSpace r") (auto simp: takeFlag_def split: if_splits)
  have fl_empty: "fl = [] \<Longrightarrow> w2 = []"
  proof -
    assume "fl = []"
    with d1 have "dropWhile isSpace r = r2" by simp
    then have "dropWhile isSpace r2 = r2"
      by (metis dropWhile_idem)
    with w2(1) show "w2 = []" by simp
  qed
  define tail3 where "tail3 = w3 @ '']''"
  define tail2 where "tail2 = nm @ tail3"
  define tail1 where "tail1 = fl @ w2 @ tail2"
  define matched where "matched = c # w1 @ tail1"
  have whole: "s = matched @ rs"
  proof -
    have "r = w1 @ fl @ w2 @ n # takeWhile isNameChar r4 @ w3 @ CHR '']'' # rs"
      using w1(1) d1 w2(1) d2 r4 w3(1) d3 by (metis append.assoc append_Cons)
    then show ?thesis
      by (simp add: s matched_def tail1_def tail2_def tail3_def nm)
  qed
  have t3: "dropWhile isSpace tail3 = '']''"
    using dropWhile_prefix_stop [of isSpace w3 "'']''"] w3(2) end_not_space
    by (simp add: tail3_def)
  have tail3_stop: "tail3 \<noteq> [] \<and> \<not> isNameChar (hd tail3)"
  proof (cases w3)
    case Nil
    then show ?thesis by (simp add: tail3_def end_not_nameChar)
  next
    case (Cons x xs)
    with w3 have "hd tail3 = x" "isSpace x" "tail3 \<noteq> []" by (auto simp: tail3_def)
    moreover have "\<not> isNameChar x" if "isSpace x" for x
      using that by (auto simp: isSpace_def isNameChar_def isLower_def isUpper_def isDigit_def Let_def)
    ultimately show ?thesis by blast
  qed
  have name_take: "takeWhile isNameChar (takeWhile isNameChar r4 @ tail3) = takeWhile isNameChar r4"
    using takeWhile_prefix_stop [OF nameChars, of tail3] tail3_stop by simp
  have name_drop: "dropWhile isNameChar (takeWhile isNameChar r4 @ tail3) = tail3"
    using dropWhile_prefix_stop [OF nameChars, of tail3] tail3_stop by simp
  have t2: "takeName tail2 = Some (nm, tail3)"
    using n by (simp add: tail2_def nm takeName_def name_take name_drop)
  have tail2_stop: "tail2 \<noteq> [] \<and> \<not> isSpace (hd tail2)"
    using n by (simp add: tail2_def nm not_space_nameStart)
  have w2t: "dropWhile isSpace (w2 @ tail2) = tail2"
    using dropWhile_prefix_stop [OF w2(2), of tail2] tail2_stop by simp
  have t1: "takeFlag tail1 = (fl, w2 @ tail2)"
  proof (cases "fl = []")
    case True
    with fl_empty have "w2 = []" by simp
    with True n show ?thesis
      using not_flag_nameStart [of n] by (simp add: tail1_def tail2_def nm takeFlag_def)
  next
    case False
    with fl_cases show ?thesis
      by (auto simp: tail1_def takeFlag_def)
  qed
  have tail1_stop: "tail1 \<noteq> [] \<and> \<not> isSpace (hd tail1)"
  proof (cases "fl = []")
    case True
    with fl_empty have "w2 = []" by simp
    with True tail2_stop show ?thesis by (simp add: tail1_def)
  next
    case False
    with fl_cases show ?thesis
      by (auto simp: tail1_def not_space_flag)
  qed
  have w1t: "dropWhile isSpace (w1 @ tail1) = tail1"
    using dropWhile_prefix_stop [OF w1(2), of tail1] tail1_stop by simp
  have "matchToken matched = Some (fl, nm, [])"
    using c by (simp add: matched_def matchToken_def w1t t1 w2t t2 t3 takeEnd_def settings_end_def)
  with whole eqs show ?thesis by blast
qed

lemma scanSpans_tokens: "map fst (scanSpans pending s) = scanTokens pending s"
  by (induction pending s rule: scanSpans.induct) (auto split: option.splits)

lemma take_matched: "s = matched @ rest \<Longrightarrow> take (length s - length rest) s = matched"
  by simp

lemma scanSpans_concat: "concat (map snd (scanSpans pending s)) = pending @ s"
proof (induction pending s rule: scanSpans.induct)
  case (1 pending)
  then show ?case by simp
next
  case (2 pending c r)
  show ?case
  proof (cases "matchToken (c # r)")
    case None
    with 2 show ?thesis by simp
  next
    case (Some m)
    obtain flag name rest where m: "m = (flag, name, rest)" by (cases m)
    from Some m obtain matched where matched: "c # r = matched @ rest"
      using matchToken_span by blast
    have tk: "take (length (c # r) - length rest) (c # r) = matched"
      using matched by (rule take_matched)
    have step: "scanSpans pending (c # r) =
        (if pending = [] then [] else [(Static pending, pending)])
        @ (Token flag name, matched) # scanSpans [] rest"
      using Some m tk by (simp del: take_Suc_Cons length_Cons)
    have ih: "concat (map snd (scanSpans [] rest)) = rest"
      using 2(2) [OF Some] m by simp
    have "concat (map snd (scanSpans pending (c # r))) = pending @ matched @ rest"
      unfolding step using ih by simp
    with matched show ?thesis by simp
  qed
qed

definition readFrom :: "segment \<times> string \<Rightarrow> bool" where
  "readFrom p =
     (case fst p of
        Static v \<Rightarrow> v = snd p \<and> v \<noteq> []
      | Token flag name \<Rightarrow> matchToken (snd p) = Some (flag, name, []))"

lemma scanSpans_readFrom: "list_all readFrom (scanSpans pending s)"
proof (induction pending s rule: scanSpans.induct)
  case (1 pending)
  have "pending \<noteq> [] \<Longrightarrow> readFrom (Static pending, pending)"
    by (simp add: readFrom_def)
  then show ?case by simp
next
  case (2 pending c r)
  show ?case
  proof (cases "matchToken (c # r)")
    case None
    with 2 show ?thesis by simp
  next
    case (Some m)
    obtain flag name rest where m: "m = (flag, name, rest)" by (cases m)
    from Some m obtain matched where matched: "c # r = matched @ rest"
      and sm: "matchToken matched = Some (flag, name, [])"
      using matchToken_span by blast
    have tk: "take (length (c # r) - length rest) (c # r) = matched"
      using matched by (rule take_matched)
    have step: "scanSpans pending (c # r) =
        (if pending = [] then [] else [(Static pending, pending)])
        @ (Token flag name, matched) # scanSpans [] rest"
      using Some m tk by (simp del: take_Suc_Cons length_Cons)
    have ih: "list_all readFrom (scanSpans [] rest)"
      using 2(2) [OF Some] m by simp
    have tok: "readFrom (Token flag name, matched)"
      using sm by (simp add: readFrom_def)
    have stat: "pending \<noteq> [] \<Longrightarrow> readFrom (Static pending, pending)"
      by (simp add: readFrom_def)
    show ?thesis
      unfolding step using ih tok stat by simp
  qed
qed

text \<open>
  Claim C7, amended: for every template string the tokenization ends (the scan is a total
  function: each match is at least three characters long and the scan goes on after it), and
  the template is cut into consecutive pieces, one per segment: a static segment is its piece
  as it stands and is not empty, a token is a piece that the pattern matches from its first
  character to its last. So every character outside the matched tokens, delimiters included,
  is literal text of a static segment. When the pattern matches at no position, the result is
  the single static segment holding the whole text if the template is not empty, and no
  segment at all if it is empty.
\<close>

theorem tokenize_segments:
  "(\<exists>spans. length spans = length (tokenizeTemplate template) \<and> concat spans = template \<and>
      list_all readFrom (zip (tokenizeTemplate template) spans)) \<and>
   (noTokenMatches template \<longrightarrow>
      tokenizeTemplate template = (if template = [] then [] else [Static template]))"
proof (intro conjI impI)
  define spans where "spans = map snd (scanSpans [] template)"
  have tokens: "tokenizeTemplate template = map fst (scanSpans [] template)"
    by (simp add: tokenizeTemplate_def scanSpans_tokens)
  have "length spans = length (tokenizeTemplate template)"
    by (simp add: spans_def tokens)
  moreover have "concat spans = template"
    using scanSpans_concat [of "[]" template] by (simp add: spans_def)
  moreover have "list_all readFrom (zip (tokenizeTemplate template) spans)"
    using scanSpans_readFrom [of "[]" template] by (simp add: spans_def tokens zip_map_fst_snd)
  ultimately show "\<exists>spans. length spans = length (tokenizeTemplate template) \<and>
      concat spans = template \<and> list_all readFrom (zip (tokenizeTemplate template) spans)"
    by blast
next
  assume "noTokenMatches template"
  then show "tokenizeTemplate template = (if template = [] then [] else [Static template])"
    using scanTokens_no_match [of template "[]"] by (simp add: tokenizeTemplate_def)
qed

text \<open>
  No token in \<^verbatim>\<open>a] [b [ ]\<close>: one static segment. One token in \<^verbatim>\<open>a] [ b ] [\<close>: the
  delimiters around it stay in the static segments.
\<close>

theorem tokenize_segments_witness:
  "noTokenMatches ''a] [b [ ]'' \<and> tokenizeTemplate ''a] [b [ ]'' = [Static ''a] [b [ ]''] \<and>
   \<not> noTokenMatches ''a] [ b ] ['' \<and>
   scanSpans [] ''a] [ b ] [''
     = [(Static ''a] '', ''a] ''), (Token [] ''b'', ''[ b ]''), (Static '' ['', '' ['')] \<and>
   tokenizeTemplate ''a] [ b ] ['' = [Static ''a] '', Token [] ''b'', Static '' ['']"
proof -
  have h: "noTokenMatches ''a] [b [ ]''"
    by code_simp
  have more: "\<not> noTokenMatches ''a] [ b ] ['' \<and>
     scanSpans [] ''a] [ b ] [''
       = [(Static ''a] '', ''a] ''), (Token [] ''b'', ''[ b ]''), (Static '' ['', '' ['')] \<and>
     tokenizeTemplate ''a] [ b ] ['' = [Static ''a] '', Token [] ''b'', Static '' ['']"
    by code_simp
  from tokenize_segments [of "''a] [b [ ]''"] h more show ?thesis by simp
qed

section \<open>Values\<close>

text \<open>
  The data handed to the engine are plain data objects. A value is modelled by its own
  enumerable properties, in the order \<^verbatim>\<open>for ... in\<close> visits them; nothing is inherited from
  \<^verbatim>\<open>Object.prototype\<close> and no own key shadows a method the code calls on the object.
  Numbers are the integers (no fraction, no \<^verbatim>\<open>NaN\<close>, no infinity, no negative zero).
  An integer is printed in decimal, which is what the conversion to a string gives for the
  integers below \<^verbatim>\<open>1e21\<close> in magnitude; from there on JavaScript prints an exponent.
  Functions, the handlers the binder calls, are not among the values a template prints.
\<close>

datatype jsval =
    Undefined
  | Null
  | Bool bool
  | Num int
  | Str string
  | Arr "jsval list"
  | Obj "(string \<times> jsval) list"

datatype error = TypeError | Thrown string

definition typeof :: "jsval \<Rightarrow> string" where
  "typeof v =
     (case v of
        Undefined \<Rightarrow> ''undefined''
      | Null \<Rightarrow> ''object''
      | Bool _ \<Rightarrow> ''boolean''
      | Num _ \<Rightarrow> ''number''
      | Str _ \<Rightarrow> ''string''
      | Arr _ \<Rightarrow> ''object''
      | Obj _ \<Rightarrow> ''object'')"

definition truthy :: "jsval \<Rightarrow> bool" where
  "truthy v =
     (case v of
        Undefined \<Rightarrow> False
      | Null \<Rightarrow> False
      | Bool b \<Rightarrow> b
      | Num n \<Rightarrow> n \<noteq> 0
      | Str s \<Rightarrow> s \<noteq> []
      | Arr _ \<Rightarrow> True
      | Obj _ \<Rightarrow> True)"

definition showInt :: "int \<Rightarrow> string" where
  "showInt i = (if i < 0 then CHR ''-'' # showNat (nat (- i)) else showNat (nat i))"

fun joinWith :: "string \<Rightarrow> string list \<Rightarrow> string" where
  "joinWith sep [] = []"
| "joinWith sep [x] = x"
| "joinWith sep (x # y # ys) = x @ sep @ joinWith sep (y # ys)"

text \<open>\<^verbatim>\<open>output += v\<close>: the string a value is converted to.\<close>

fun toStr :: "jsval \<Rightarrow> string" where
  "toStr Undefined = ''undefined''"
| "toStr Null = ''null''"
| "toStr (Bool b) = (if b then ''true'' else ''false'')"
| "toStr (Num n) = showInt n"
| "toStr (Str s) = s"
| "toStr (Arr xs) =
     joinWith '','' (map (\<lambda>x. if x = Null \<or> x = Undefined then [] else toStr x) xs)"
| "toStr (Obj kvs) = ''[object Object]''"

definition indexKeys :: "nat \<Rightarrow> string list" where
  "indexKeys n = map showNat [0..<n]"

text \<open>
  \<^verbatim>\<open>Object.prototype.hasOwnProperty.call(v, k)\<close>: a \<^verbatim>\<open>TypeError\<close> on \<^verbatim>\<open>null\<close> and
  \<^verbatim>\<open>undefined\<close>, which have no object to convert to.
\<close>

definition hasOwnProperty :: "jsval \<Rightarrow> string \<Rightarrow> error + bool" where
  "hasOwnProperty v k =
     (case v of
        Undefined \<Rightarrow> Inl TypeError
      | Null \<Rightarrow> Inl TypeError
      | Bool _ \<Rightarrow> Inr False
      | Num _ \<Rightarrow> Inr False
      | Str s \<Rightarrow> Inr (k = ''length'' \<or> k \<in> set (indexKeys (length s)))
      | Arr xs \<Rightarrow> Inr (k = ''length'' \<or> k \<in> set (indexKeys (length xs)))
      | Obj kvs \<Rightarrow> Inr (k \<in> set (map fst kvs)))"

text \<open>\<^verbatim>\<open>v[k]\<close> on a value that is neither \<^verbatim>\<open>null\<close> nor \<^verbatim>\<open>undefined\<close>.\<close>

definition getProp :: "jsval \<Rightarrow> string \<Rightarrow> jsval" where
  "getProp v k =
     (case v of
        Obj kvs \<Rightarrow> (case map_of kvs k of None \<Rightarrow> Undefined | Some x \<Rightarrow> x)
      | Arr xs \<Rightarrow>
          if k = ''length'' then Num (int (length xs))
          else (case find (\<lambda>i. showNat i = k) [0..<length xs] of
                  None \<Rightarrow> Undefined
                | Some i \<Rightarrow> xs ! i)
      | Str s \<Rightarrow>
          if k = ''length'' then Num (int (length s))
          else (case find (\<lambda>i. showNat i = k) [0..<length s] of
                  None \<Rightarrow> Undefined
                | Some i \<Rightarrow> Str [s ! i])
      | _ \<Rightarrow> Undefined)"

section \<open>The filter pipeline\<close>

text \<open>
  A filter function takes the payload and the extra arguments and returns a value or throws.
  The registry \<^verbatim>\<open>filters\<close> is an object literal used as a dictionary from names to chains of
  \<^verbatim>\<open>[fn, priority]\<close> entries. Being an object, it inherits the members of
  \<^verbatim>\<open>Object.prototype\<close>: under one of their names \<^verbatim>\<open>filters[name]\<close> is that member, a
  function (or, for \<^verbatim>\<open>__proto__\<close>, the prototype itself), which is truthy and has neither
  \<^verbatim>\<open>push\<close> nor \<^verbatim>\<open>reduce\<close>. Priorities are numbers that compare;
  \<^verbatim>\<open>Array.prototype.sort\<close> is stable, so with the comparator \<^verbatim>\<open>(a, b) => a[1] - b[1]\<close> it is
  the stable sort on the priority.
\<close>

type_synonym filter_fn = "jsval \<Rightarrow> jsval list \<Rightarrow> error + jsval"

type_synonym filter_entry = "filter_fn \<times> int"

type_synonym registry = "string \<rightharpoonup> filter_entry list"

text \<open>What a caller may hand to \<^verbatim>\<open>addFilter\<close> as \<^verbatim>\<open>name\<close> and as \<^verbatim>\<open>fn\<close>: a value or a function.\<close>

datatype arg = Value jsval | Function filter_fn

definition objectPrototypeNames :: "string list" where
  \<comment> \<open>the names every object literal inherits\<close>
  "objectPrototypeNames =
     [''constructor'', ''hasOwnProperty'', ''isPrototypeOf'', ''propertyIsEnumerable'',
      ''toLocaleString'', ''toString'', ''valueOf'', ''__proto__'',
      ''__defineGetter__'', ''__defineSetter__'', ''__lookupGetter__'', ''__lookupSetter__'']"

definition chainOf :: "registry \<Rightarrow> string \<Rightarrow> filter_entry list" where
  \<comment> \<open>\<^verbatim>\<open>filters[name] || []\<close> under a name that is not inherited\<close>
  "chainOf filters name = (case filters name of None \<Rightarrow> [] | Some chain \<Rightarrow> chain)"

definition pushFilter :: "string \<Rightarrow> filter_fn \<Rightarrow> int \<Rightarrow> registry \<Rightarrow> registry" where
  \<comment> \<open>the three statements after the check, on a chain: default to the empty chain, push, sort\<close>
  "pushFilter name fn priority filters =
     filters(name \<mapsto> sort_key snd (chainOf filters name @ [(fn, priority)]))"

definition addFilter :: "arg \<Rightarrow> arg \<Rightarrow> int option \<Rightarrow> registry \<Rightarrow> error + registry" where
  \<comment> \<open>\<open>None\<close> for the priority is the argument left out: the default is 0. Under an inherited
      name \<^verbatim>\<open>filters[name].push\<close> is not a function.\<close>
  "addFilter name fn priority filters =
     (case name of
        Value (Str n) \<Rightarrow>
          (case fn of
             Function f \<Rightarrow>
               if n \<in> set objectPrototypeNames then Inl TypeError
               else Inr (pushFilter n f (case priority of None \<Rightarrow> 0 | Some p \<Rightarrow> p) filters)
           | Value _ \<Rightarrow> Inl TypeError)
      | _ \<Rightarrow> Inl TypeError)"

text \<open>
  The \<^verbatim>\<open>reduce\<close> of \<^verbatim>\<open>applyFilter\<close>: each function gets the result so far; a result
  \<^verbatim>\<open>undefined\<close> becomes the empty string; an exception ends the fold.
\<close>

fun reduceChain :: "filter_entry list \<Rightarrow> jsval \<Rightarrow> jsval list \<Rightarrow> error + jsval" where
  "reduceChain [] result args = Inr result"
| "reduceChain ((fn, priority) # chain) result args =
     (case fn result args of
        Inl e \<Rightarrow> Inl e
      | Inr substituted \<Rightarrow>
          reduceChain chain (if substituted \<noteq> Undefined then substituted else Str []) args)"

definition applyFilter :: "registry \<Rightarrow> string \<Rightarrow> jsval \<Rightarrow> jsval list \<Rightarrow> error + jsval" where
  \<comment> \<open>under an inherited name \<^verbatim>\<open>(filters[name] || []).reduce\<close> is not a function\<close>
  "applyFilter filters name payload args =
     (if name \<in> set objectPrototypeNames then Inl TypeError
      else reduceChain (chainOf filters name) payload args)"

text \<open>
  A sequence of calls of \<^verbatim>\<open>addFilter\<close>, each with a name, a function and a priority; an
  exception ends the sequence.
\<close>

fun addFilters :: "(string \<times> filter_fn \<times> int) list \<Rightarrow> registry \<Rightarrow> error + registry" where
  "addFilters [] filters = Inr filters"
| "addFilters ((name, fn, priority) # regs) filters =
     (case addFilter (Value (Str name)) (Function fn) (Some priority) filters of
        Inl e \<Rightarrow> Inl e
      | Inr filters' \<Rightarrow> addFilters regs filters')"



text \<open>A filter that leaves its mark: it appends a text of its own to the payload.\<close>

definition mark :: "string \<Rightarrow> filter_fn" where
  "mark m payload args = Inr (Str (toStr payload @ m))"


subsection \<open>The built-in filter \<^verbatim>\<open>token\<close>\<close>

fun splitOn :: "char \<Rightarrow> string \<Rightarrow> string list" where
  "splitOn sep [] = [[]]"
| "splitOn sep (c # cs) =
     (if c = sep then [] # splitOn sep cs
      else (case splitOn sep cs of [] \<Rightarrow> [[c]] | w # ws \<Rightarrow> (c # w) # ws))"

fun walkPath :: "string list \<Rightarrow> jsval \<Rightarrow> error + jsval" where
  "walkPath [] dataLookup = Inr dataLookup"
| "walkPath (p # path) dataLookup =
     (case hasOwnProperty dataLookup p of
        Inl e \<Rightarrow> Inl e
      | Inr own \<Rightarrow> if \<not> own then Inr (Str []) else walkPath path (getProp dataLookup p))"

definition tokenFilter :: filter_fn where
  "tokenFilter token args =
     (case token of
        Str t \<Rightarrow> walkPath (splitOn CHR ''.'' t) (case args of [] \<Rightarrow> Undefined | data # _ \<Rightarrow> data)
      | _ \<Rightarrow> Inl TypeError)"

definition initialFilters :: registry where
  \<comment> \<open>the registry once the module is loaded: \<^verbatim>\<open>addFilter("token", ...)\<close> on the empty one\<close>
  "initialFilters = pushFilter ''token'' tokenFilter 0 Map.empty"

text \<open>
  What the path names in the data: the value reached by following own keys, if every segment
  is an own key of the value before it.
\<close>

definition ownKey :: "jsval \<Rightarrow> string \<Rightarrow> bool" where
  "ownKey v k = (case hasOwnProperty v k of Inl _ \<Rightarrow> False | Inr own \<Rightarrow> own)"

fun resolvePath :: "string list \<Rightarrow> jsval \<Rightarrow> jsval option" where
  "resolvePath [] v = Some v"
| "resolvePath (p # path) v = (if ownKey v p then resolvePath path (getProp v p) else None)"

text \<open>The walk comes to \<^verbatim>\<open>null\<close> or \<^verbatim>\<open>undefined\<close> with a segment still to look up.\<close>

fun reachesNullish :: "string list \<Rightarrow> jsval \<Rightarrow> bool" where
  "reachesNullish [] v = False"
| "reachesNullish (p # path) v =
     (v = Null \<or> v = Undefined \<or> (ownKey v p \<and> reachesNullish path (getProp v p)))"

subsection \<open>The order of a chain\<close>



lemma token_not_inherited: "''token'' \<notin> set objectPrototypeNames"
  by (simp add: objectPrototypeNames_def)

lemma initialFilters_addFilter:
  "addFilter (Value (Str ''token'')) (Function tokenFilter) None Map.empty = Inr initialFilters"
  using token_not_inherited by (simp add: addFilter_def initialFilters_def)












text \<open>Two filters of one priority run in the order they were registered.\<close>

lemma filter_order_example:
  "\<exists>filters.
     addFilters [(''f'', mark ''a'', 2), (''f'', mark ''b'', 1), (''f'', mark ''c'', 2)] Map.empty
       = Inr filters \<and>
     applyFilter filters ''f'' (Str []) [] = Inr (Str ''bac'')"
  by (simp add: addFilter_def pushFilter_def chainOf_def applyFilter_def mark_def
      objectPrototypeNames_def)

subsection \<open>What the filter \<^verbatim>\<open>token\<close> returns\<close>

lemma walkPath_cases:
  "walkPath path v =
     (if reachesNullish path v then Inl TypeError
      else Inr (case resolvePath path v of None \<Rightarrow> Str [] | Some r \<Rightarrow> r))"
  by (induction path arbitrary: v)
    (auto simp: ownKey_def hasOwnProperty_def split: jsval.splits sum.splits)

text \<open>
  Claim C3, as stated, says the filter does not throw when an intermediate value of the path
  is \<^verbatim>\<open>null\<close>. With \<^verbatim>\<open>{a: null}\<close> and the path \<^verbatim>\<open>a.b\<close>, the second turn of the loop calls
  \<^verbatim>\<open>hasOwnProperty\<close> on \<^verbatim>\<open>null\<close>, a \<^verbatim>\<open>TypeError\<close>.
\<close>

theorem tokenFilter_null_counterexample:
  "tokenFilter (Str ''a.b'') [Obj [(''a'', Null)], Str ''[a.b]''] = Inl TypeError"
  by (simp add: tokenFilter_def hasOwnProperty_def getProp_def)

section \<open>The substitution engine\<close>

text \<open>
  The two module-level variables \<^verbatim>\<open>substitute\<close> writes: the counter of context identifiers
  and the table of local contexts, a \<^verbatim>\<open>Map\<close> kept here in insertion order. The counter is
  a JavaScript number that only ever counts up from 0 by one, exactly so below \<open>2\<^sup>5\<^sup>3\<close>; the model
  counts in \<^typ>\<open>nat\<close>.
\<close>

record runtime =
  uniqueCounter :: nat
  localContexts :: "(string \<times> jsval) list"

definition initialRuntime :: runtime where
  "initialRuntime = \<lparr> uniqueCounter = 0, localContexts = [] \<rparr>"

text \<open>
  \<^verbatim>\<open>getTokens\<close> reads the tokens of a template through \<^verbatim>\<open>tokenCache\<close>, which only
  \<^verbatim>\<open>getTokens\<close> itself writes.
\<close>

definition getTokens :: "string \<Rightarrow> (string \<rightharpoonup> segment list) \<Rightarrow> segment list \<times> (string \<rightharpoonup> segment list)" where
  "getTokens template tokenCache =
     (case tokenCache template of
        Some tokens \<Rightarrow> (tokens, tokenCache)
      | None \<Rightarrow>
          let tokens = tokenizeTemplate template
          in (tokens, tokenCache(template \<mapsto> tokens)))"

definition cacheSound :: "(string \<rightharpoonup> segment list) \<Rightarrow> bool" where
  "cacheSound tokenCache = (\<forall>template tokens. tokenCache template = Some tokens \<longrightarrow> tokens = tokenizeTemplate template)"

definition serialize :: "segment \<Rightarrow> string" where
  \<comment> \<open>the text a segment of a block is put back as\<close>
  "serialize tok =
     (case tok of
        Static v \<Rightarrow> v
      | Token flag v \<Rightarrow> settings_start @ (if flag \<noteq> [] then flag else []) @ v @ settings_end)"

definition innerTemplateOf :: "segment list \<Rightarrow> string" where
  "innerTemplateOf innerTokens = concat (map serialize innerTokens)"

text \<open>
  The search for the closing token: the first token with the flag \<^verbatim>\<open>/\<close> and the same value.
  It returns the segments before it (\<^verbatim>\<open>innerTokens\<close>) and the segments after it.
\<close>

fun findClosing :: "string \<Rightarrow> segment list \<Rightarrow> (segment list \<times> segment list) option" where
  "findClosing v [] = None"
| "findClosing v (nextSegment # segs) =
     (if nextSegment = Token ''/'' v then Some ([], segs)
      else (case findClosing v segs of
              None \<Rightarrow> None
            | Some (innerTokens, after) \<Rightarrow> Some (nextSegment # innerTokens, after)))"

definition forInKeys :: "jsval \<Rightarrow> string list" where
  \<comment> \<open>the keys \<^verbatim>\<open>for (const key in v)\<close> visits and \<^verbatim>\<open>v.hasOwnProperty(key)\<close> keeps\<close>
  "forInKeys v =
     (case v of
        Obj kvs \<Rightarrow> map fst kvs
      | Arr xs \<Rightarrow> indexKeys (length xs)
      | Str s \<Rightarrow> indexKeys (length s)
      | _ \<Rightarrow> [])"

definition ownProps :: "jsval \<Rightarrow> (string \<times> jsval) list" where
  \<comment> \<open>the properties \<^verbatim>\<open>Object.assign\<close> copies from a source\<close>
  "ownProps v = map (\<lambda>k. (k, getProp v k)) (forInKeys v)"

definition loopDataOf :: "string \<Rightarrow> jsval \<Rightarrow> jsval" where
  \<comment> \<open>\<^verbatim>\<open>Object.assign({}, v, { _key: key, _value: v })\<close>\<close>
  "loopDataOf key v =
     Obj (AList.update ''_value'' v (AList.update ''_key'' (Str key) (ownProps v)))"

definition uniqueIdOf :: "nat \<Rightarrow> string" where
  "uniqueIdOf n = ''potion_'' @ showNat n"

text \<open>
  \<^verbatim>\<open>renderedBlock.replace(/^\s*<([a-zA-Z0-9-]+)/, `<$1 data-potion-key="${uniqueId}"`)\<close>
\<close>

definition injectKey :: "string \<Rightarrow> string \<Rightarrow> string" where
  "injectKey uniqueId renderedBlock =
     (case dropWhile isSpace renderedBlock of
        [] \<Rightarrow> renderedBlock
      | c # r \<Rightarrow>
          if c = CHR ''<'' \<and> takeWhile isTagChar r \<noteq> []
          then ''<'' @ takeWhile isTagChar r @ '' data-potion-key='' @ [CHR 0x22] @ uniqueId @ [CHR 0x22]
               @ dropWhile isTagChar r
          else renderedBlock)"

definition resolveToken :: "registry \<Rightarrow> string \<Rightarrow> jsval \<Rightarrow> string \<Rightarrow> jsval" where
  \<comment> \<open>the \<^verbatim>\<open>try\<close> around \<^verbatim>\<open>applyFilter("token", segment.value, data, template)\<close>\<close>
  "resolveToken filters v data template =
     (case applyFilter filters (''token'') (Str v) [data, Str template] of
        Inl e \<Rightarrow> Str []
      | Inr substituted \<Rightarrow> substituted)"

definition serializedLength :: "segment list \<Rightarrow> nat" where
  "serializedLength tokens = length (innerTemplateOf tokens)"

lemma scanTokens_bounds:
  "serializedLength (scanTokens pending s) \<le> length pending + length s \<and>
   length (scanTokens pending s) \<le> (if pending = [] then 0 else 1) + length s"
proof (induction pending s rule: scanTokens.induct)
  case (1 pending)
  then show ?case
    by (simp add: serializedLength_def innerTemplateOf_def serialize_def)
next
  case (2 pending c r)
  show ?case
  proof (cases "matchToken (c # r)")
    case None
    with 2 show ?thesis by (auto split: if_splits)
  next
    case (Some m)
    obtain flag name rest where m: "m = (flag, name, rest)" by (cases m)
    from Some m have len: "length rest + length flag + length name + 2 \<le> length (c # r)"
      using matchToken_shorter by blast
    from 2(2) [OF Some] m have ih: "serializedLength (scanTokens [] rest) \<le> length rest"
      "length (scanTokens [] rest) \<le> length rest" by auto
    from Some m ih len show ?thesis
      by (auto simp: serializedLength_def innerTemplateOf_def serialize_def settings_start_def settings_end_def)
  qed
qed

lemma tokenizeTemplate_bounds:
  "serializedLength (tokenizeTemplate t) \<le> length t" "length (tokenizeTemplate t) \<le> length t"
  using scanTokens_bounds [of "[]" t] by (simp_all add: tokenizeTemplate_def)

lemma findClosing_bounds:
  "findClosing v tokens = Some (innerTokens, after) \<Longrightarrow>
   serializedLength innerTokens + serializedLength after \<le> serializedLength tokens \<and>
   length after < length tokens"
proof (induction tokens arbitrary: innerTokens)
  case Nil
  then show ?case by simp
next
  case (Cons seg segs)
  show ?case
  proof (cases "seg = Token ''/'' v")
    case True
    with Cons.prems show ?thesis
      by (auto simp: serializedLength_def innerTemplateOf_def)
  next
    case False
    with Cons.prems obtain inner' where fc: "findClosing v segs = Some (inner', after)"
      and it: "innerTokens = seg # inner'"
      by (auto split: option.splits)
    from Cons.IH [OF fc] it show ?thesis
      by (auto simp: serializedLength_def innerTemplateOf_def)
  qed
qed

text \<open>
  The end of one turn of the \<^verbatim>\<open>for ... in\<close> loop, once the block is rendered for the entry:
  trim it, take the next identifier, store the local context under it, put the identifier on
  the first tag, append.
\<close>

definition storeEntry :: "jsval \<Rightarrow> string \<Rightarrow> string \<times> runtime \<Rightarrow> string \<times> runtime" where
  "storeEntry loopData output r =
     (case r of
        (rendered, rt) \<Rightarrow>
          let renderedBlock = trim rendered;
              uniqueId = uniqueIdOf (uniqueCounter rt);
              rt' = rt \<lparr> uniqueCounter := uniqueCounter rt + 1,
                        localContexts := AList.update uniqueId loopData (localContexts rt) \<rparr>
          in (output @ injectKey uniqueId renderedBlock, rt'))"

text \<open>\<^verbatim>\<open>output += ...\<close>, then the rest of the loop.\<close>

definition emit :: "string \<Rightarrow> string \<times> runtime \<Rightarrow> string \<times> runtime" where
  "emit output r = (case r of (out, rt) \<Rightarrow> (output @ out, rt))"

text \<open>
  \<^verbatim>\<open>substitute\<close> reads its tokens through \<^verbatim>\<open>getTokens\<close>; the cache holds the tokens of the
  very template (\<open>getTokens_sound\<close> below), so the model tokenizes. \<open>substituteFrom\<close> is the
  \<^verbatim>\<open>while (index < tokens.length)\<close> loop from the segment at \<^verbatim>\<open>index\<close> on; it returns the
  text appended to \<^verbatim>\<open>output\<close> from there on and the runtime left behind.
\<close>

function substitute :: "registry \<Rightarrow> string \<Rightarrow> jsval \<Rightarrow> runtime \<Rightarrow> string \<times> runtime"
  and substituteFrom :: "registry \<Rightarrow> string \<Rightarrow> segment list \<Rightarrow> jsval \<Rightarrow> runtime \<Rightarrow> string \<times> runtime"
where
  "substitute filters template data rt =
     substituteFrom filters template (tokenizeTemplate template) data rt"
| "substituteFrom filters template [] data rt = ([], rt)"
| "substituteFrom filters template (Static v # tokens) data rt =
     emit v (substituteFrom filters template tokens data rt)"
| "substituteFrom filters template (Token flag v # tokens) data rt =
     (if flag = ''/'' then substituteFrom filters template tokens data rt
      else
        let substituted = resolveToken filters v data template
        in (case findClosing v tokens of
              None \<Rightarrow> emit (toStr substituted) (substituteFrom filters template tokens data rt)
            | Some (innerTokens, after) \<Rightarrow>
                let innerTemplate = innerTemplateOf innerTokens;
                    block =
                      (if typeof substituted = ''boolean'' then
                         (if truthy substituted then substitute filters innerTemplate data rt
                          else ([], rt))
                       else if typeof substituted = ''object'' then
                         fold (\<lambda>key acc.
                                 let loopData = loopDataOf key (getProp substituted key)
                                 in storeEntry loopData (fst acc)
                                      (substitute filters innerTemplate loopData (snd acc)))
                           (forInKeys substituted) ([], rt)
                       else (toStr substituted, rt))
                in emit (fst block) (substituteFrom filters template after data (snd block))))"
  by pat_completeness auto
termination
  apply (relation "measures
     [case_sum (\<lambda>(filters, t, d, rt). length t) (\<lambda>(filters, t, toks, d, rt). serializedLength toks),
      case_sum (\<lambda>(filters, t, d, rt). Suc (length t)) (\<lambda>(filters, t, toks, d, rt). length toks)]")
  using tokenizeTemplate_bounds findClosing_bounds
  apply (auto simp: serializedLength_def innerTemplateOf_def serialize_def settings_start_def settings_end_def
         dest!: findClosing_bounds)
  apply (metis le_neq_implies_less tokenizeTemplate_bounds(1) serializedLength_def innerTemplateOf_def)
  apply (metis le_imp_less_Suc tokenizeTemplate_bounds(2))
  done


declare substitute.simps [simp del] substituteFrom.simps(3) [simp del]

subsection \<open>What a render pass does to the runtime\<close>





















subsection \<open>Blocks\<close>

lemma emit_Nil: "emit [] r = r"
  by (cases r) (simp add: emit_def)

lemma typeof_Bool: "typeof (Bool b) = ''boolean''"
  by (simp add: typeof_def)

lemma block_step:
  assumes "flag \<noteq> ''/''" and "findClosing v tokens = Some (innerTokens, after)"
  shows "substituteFrom filters template (Token flag v # tokens) data rt =
     (let substituted = resolveToken filters v data template;
          innerTemplate = innerTemplateOf innerTokens;
          block =
            (if typeof substituted = ''boolean'' then
               (if truthy substituted then substitute filters innerTemplate data rt else ([], rt))
             else if typeof substituted = ''object'' then
               fold (\<lambda>key acc.
                       let loopData = loopDataOf key (getProp substituted key)
                       in storeEntry loopData (fst acc) (substitute filters innerTemplate loopData (snd acc)))
                 (forInKeys substituted) ([], rt)
             else (toStr substituted, rt))
      in emit (fst block) (substituteFrom filters template after data (snd block)))"
  using assms by (simp add: substituteFrom.simps(3))

text \<open>
  Claim C5, amended: for every block (an opening token and the first closing token of the
  same name after it) whose name resolves to a boolean, the block contributes the rendering
  of the inner template with the same data when the value is true (and the runtime goes
  through that rendering), and the empty string when it is false; the loop goes on after the
  closing token. In particular \<^verbatim>\<open>[flag]yes[/flag]\<close> renders \<^verbatim>\<open>yes\<close> under \<^verbatim>\<open>{flag: true}\<close>
  and the empty string under \<^verbatim>\<open>{flag: false}\<close>. The name of a token is a dotted path into the
  data: \<^verbatim>\<open>[if.flag]\<close> looks up \<^verbatim>\<open>flag\<close> inside \<^verbatim>\<open>if\<close>.
\<close>

theorem conditional_block:
  "(flag \<noteq> ''/'' \<and> findClosing v tokens = Some (innerTokens, after) \<and>
    resolveToken filters v data template = Bool b \<longrightarrow>
      substituteFrom filters template (Token flag v # tokens) data rt =
        (if b then
           emit (fst (substitute filters (innerTemplateOf innerTokens) data rt))
             (substituteFrom filters template after data
                (snd (substitute filters (innerTemplateOf innerTokens) data rt)))
         else substituteFrom filters template after data rt)) \<and>
   fst (substitute initialFilters ''[flag]yes[/flag]'' (Obj [(''flag'', Bool True)]) rt0) = ''yes'' \<and>
   fst (substitute initialFilters ''[flag]yes[/flag]'' (Obj [(''flag'', Bool False)]) rt0) = []"
proof (intro conjI impI)
  assume h: "flag \<noteq> ''/'' \<and> findClosing v tokens = Some (innerTokens, after) \<and>
    resolveToken filters v data template = Bool b"
  then show "substituteFrom filters template (Token flag v # tokens) data rt =
        (if b then
           emit (fst (substitute filters (innerTemplateOf innerTokens) data rt))
             (substituteFrom filters template after data
                (snd (substitute filters (innerTemplateOf innerTokens) data rt)))
         else substituteFrom filters template after data rt)"
    using block_step [of flag v tokens innerTokens after filters template data rt]
    by (simp add: typeof_Bool truthy_def emit_Nil Let_def)
next
  have tok: "tokenizeTemplate ''[flag]yes[/flag]'' = [Token [] ''flag'', Static ''yes'', Token ''/'' ''flag'']"
    by code_simp
  have inner: "tokenizeTemplate ''yes'' = [Static ''yes'']"
    by code_simp
  have r: "resolveToken initialFilters ''flag'' (Obj [(''flag'', Bool True)]) ''[flag]yes[/flag]'' = Bool True"
    by code_simp
  have r': "resolveToken initialFilters ''flag'' (Obj [(''flag'', Bool False)]) ''[flag]yes[/flag]'' = Bool False"
    by code_simp
  show "fst (substitute initialFilters ''[flag]yes[/flag]'' (Obj [(''flag'', Bool True)]) rt0) = ''yes''"
    by (simp add: substitute.simps substituteFrom.simps(3) tok inner r typeof_Bool truthy_def
        innerTemplateOf_def serialize_def emit_def)
  show "fst (substitute initialFilters ''[flag]yes[/flag]'' (Obj [(''flag'', Bool False)]) rt0) = []"
    by (simp add: substitute.simps substituteFrom.simps(3) tok inner r' typeof_Bool truthy_def
        innerTemplateOf_def serialize_def emit_def)
qed

theorem conditional_block_witness:
  "findClosing ''if.flag'' [Static ''yes'', Token ''/'' ''if.flag''] = Some ([Static ''yes''], []) \<and>
   resolveToken initialFilters ''if.flag'' (Obj [(''if'', Obj [(''flag'', Bool True)])])
       ''[if.flag]yes[/if.flag]'' = Bool True \<and>
   substituteFrom initialFilters ''[if.flag]yes[/if.flag]''
       (Token [] ''if.flag'' # [Static ''yes'', Token ''/'' ''if.flag''])
       (Obj [(''if'', Obj [(''flag'', Bool True)])]) initialRuntime
     = (''yes'', initialRuntime)"
proof -
  have f: "findClosing ''if.flag'' [Static ''yes'', Token ''/'' ''if.flag''] = Some ([Static ''yes''], [])"
    by simp
  have r: "resolveToken initialFilters ''if.flag'' (Obj [(''if'', Obj [(''flag'', Bool True)])])
       ''[if.flag]yes[/if.flag]'' = Bool True"
    by code_simp
  have s: "substitute initialFilters (innerTemplateOf [Static ''yes''])
       (Obj [(''if'', Obj [(''flag'', Bool True)])]) initialRuntime = (''yes'', initialRuntime)"
    by code_simp
  have "[] \<noteq> ''/''" by simp
  with f r conditional_block [of "[]" "''if.flag''" "[Static ''yes'', Token ''/'' ''if.flag'']"
      "[Static ''yes'']" "[]" "initialFilters" "Obj [(''if'', Obj [(''flag'', Bool True)])]"
      "''[if.flag]yes[/if.flag]''" True initialRuntime]
  have "substituteFrom initialFilters ''[if.flag]yes[/if.flag]''
       (Token [] ''if.flag'' # [Static ''yes'', Token ''/'' ''if.flag''])
       (Obj [(''if'', Obj [(''flag'', Bool True)])]) initialRuntime
     = emit (fst (substitute initialFilters (innerTemplateOf [Static ''yes''])
                   (Obj [(''if'', Obj [(''flag'', Bool True)])]) initialRuntime))
         (substituteFrom initialFilters ''[if.flag]yes[/if.flag]'' []
            (Obj [(''if'', Obj [(''flag'', Bool True)])])
            (snd (substitute initialFilters (innerTemplateOf [Static ''yes''])
                   (Obj [(''if'', Obj [(''flag'', Bool True)])]) initialRuntime)))"
    by simp
  with s have "substituteFrom initialFilters ''[if.flag]yes[/if.flag]''
       (Token [] ''if.flag'' # [Static ''yes'', Token ''/'' ''if.flag''])
       (Obj [(''if'', Obj [(''flag'', Bool True)])]) initialRuntime = (''yes'', initialRuntime)"
    by (simp add: emit_def)
  with f r show ?thesis by simp
qed

text \<open>
  Claim C5, as stated, has \<^verbatim>\<open>[if.flag]yes[/if.flag]\<close> render \<^verbatim>\<open>yes\<close> under \<^verbatim>\<open>{flag: true}\<close>.
  The data has no own key \<^verbatim>\<open>if\<close>, the filter returns the empty string, which is neither a
  boolean nor an object: the block renders the empty string.
\<close>

theorem conditional_block_counterexample:
  "fst (substitute initialFilters ''[if.flag]yes[/if.flag]'' (Obj [(''flag'', Bool True)]) initialRuntime) = [] \<and>
   fst (substitute initialFilters ''[if.flag]yes[/if.flag]'' (Obj [(''flag'', Bool True)]) initialRuntime) \<noteq> ''yes''"
  by code_simp

text \<open>
  Claim C10: \<^verbatim>\<open>typeof null\<close> is \<^verbatim>\<open>object\<close>, so a block whose name resolves to \<^verbatim>\<open>null\<close>
  goes to the iteration branch; \<^verbatim>\<open>for ... in\<close> visits no key of \<^verbatim>\<open>null\<close>; the block adds nothing
  to the output (not the text \<^verbatim>\<open>null\<close>), leaves the runtime as it is, and the loop goes on after
  the closing token.
\<close>

theorem null_block:
  "typeof Null = ''object'' \<and> forInKeys Null = [] \<and>
   (flag \<noteq> ''/'' \<and> findClosing v tokens = Some (innerTokens, after) \<and>
    resolveToken filters v data template = Null \<longrightarrow>
      substituteFrom filters template (Token flag v # tokens) data rt
        = substituteFrom filters template after data rt)"
proof (intro conjI impI)
  show "typeof Null = ''object''" by (simp add: typeof_def)
  show "forInKeys Null = []" by (simp add: forInKeys_def)
  assume h: "flag \<noteq> ''/'' \<and> findClosing v tokens = Some (innerTokens, after) \<and>
    resolveToken filters v data template = Null"
  then show "substituteFrom filters template (Token flag v # tokens) data rt
        = substituteFrom filters template after data rt"
    using block_step [of flag v tokens innerTokens after filters template data rt]
    by (simp add: typeof_def forInKeys_def emit_Nil Let_def)
qed

theorem null_block_witness:
  "findClosing ''x'' [Static ''abc'', Token ''/'' ''x'', Static ''!''] = Some ([Static ''abc''], [Static ''!'']) \<and>
   resolveToken initialFilters ''x'' (Obj [(''x'', Null)]) ''[x]abc[/x]!'' = Null \<and>
   substituteFrom initialFilters ''[x]abc[/x]!''
       (Token [] ''x'' # [Static ''abc'', Token ''/'' ''x'', Static ''!''])
       (Obj [(''x'', Null)]) initialRuntime
     = (''!'', initialRuntime)"
proof -
  have f: "findClosing ''x'' [Static ''abc'', Token ''/'' ''x'', Static ''!''] = Some ([Static ''abc''], [Static ''!''])"
    by simp
  have r: "resolveToken initialFilters ''x'' (Obj [(''x'', Null)]) ''[x]abc[/x]!'' = Null"
    by code_simp
  have "[] \<noteq> ''/''" by simp
  with f r null_block [of "[]" "''x''" "[Static ''abc'', Token ''/'' ''x'', Static ''!'']"
      "[Static ''abc'']" "[Static ''!'']" "initialFilters" "Obj [(''x'', Null)]" "''[x]abc[/x]!''"
      initialRuntime]
  have "substituteFrom initialFilters ''[x]abc[/x]!''
       (Token [] ''x'' # [Static ''abc'', Token ''/'' ''x'', Static ''!''])
       (Obj [(''x'', Null)]) initialRuntime
     = substituteFrom initialFilters ''[x]abc[/x]!'' [Static ''!''] (Obj [(''x'', Null)]) initialRuntime"
    by simp
  then have "substituteFrom initialFilters ''[x]abc[/x]!''
       (Token [] ''x'' # [Static ''abc'', Token ''/'' ''x'', Static ''!''])
       (Obj [(''x'', Null)]) initialRuntime = (''!'', initialRuntime)"
    by (simp add: emit_def)
  with f r show ?thesis by simp
qed

lemma null_block_example:
  "tokenizeTemplate ''[x]abc[/x]!'' = [Token [] ''x'', Static ''abc'', Token ''/'' ''x'', Static ''!''] \<and>
   substitute initialFilters ''[x]abc[/x]!'' (Obj [(''x'', Null)]) initialRuntime = (''!'', initialRuntime)"
  by code_simp

subsection \<open>A path that meets \<^verbatim>\<open>null\<close>\<close>

lemma chainOf_initialFilters: "chainOf initialFilters ''token'' = [(tokenFilter, 0)]"
  by (simp add: initialFilters_def pushFilter_def chainOf_def)

lemma resolveToken_initialFilters:
  "resolveToken initialFilters token data template =
     (if reachesNullish (splitOn CHR ''.'' token) data then Str []
      else (case resolvePath (splitOn CHR ''.'' token) data of
              None \<Rightarrow> Str []
            | Some v \<Rightarrow> if v = Undefined then Str [] else v))"
  using token_not_inherited
  by (simp add: resolveToken_def applyFilter_def chainOf_initialFilters tokenFilter_def walkPath_cases
      split: option.splits)

text \<open>
  Claim C3, amended: for every dotted path and every data value, the filter walks the path
  segment by segment. It throws, a \<^verbatim>\<open>TypeError\<close>, exactly when the walk comes to
  \<^verbatim>\<open>null\<close> or \<^verbatim>\<open>undefined\<close> with a segment still to look up. Otherwise it returns
  the empty string as soon as a segment is not an own key of the current value (a number or a
  boolean has no own key), and the value the path leads to when every segment is an own key.
  \<^verbatim>\<open>substitute\<close> catches the exception: with the built-in filter alone in the chain, the
  token resolves to the empty string where the filter throws (and where it returns
  \<^verbatim>\<open>undefined\<close>), and to what the filter returns elsewhere; a token with no closing token
  whose path meets \<^verbatim>\<open>null\<close> adds nothing to the output.
\<close>

theorem tokenFilter_walk:
  "tokenFilter (Str token) (data # args) =
     (if reachesNullish (splitOn CHR ''.'' token) data then Inl TypeError
      else Inr (case resolvePath (splitOn CHR ''.'' token) data of None \<Rightarrow> Str [] | Some v \<Rightarrow> v)) \<and>
   resolveToken initialFilters token data template =
     (if reachesNullish (splitOn CHR ''.'' token) data then Str []
      else (case resolvePath (splitOn CHR ''.'' token) data of
              None \<Rightarrow> Str []
            | Some v \<Rightarrow> if v = Undefined then Str [] else v)) \<and>
   (reachesNullish (splitOn CHR ''.'' token) data \<and> findClosing token tokens = None \<and> flag \<noteq> ''/'' \<longrightarrow>
      substituteFrom initialFilters template (Token flag token # tokens) data rt
        = substituteFrom initialFilters template tokens data rt)"
proof (intro conjI impI)
  show "tokenFilter (Str token) (data # args) =
     (if reachesNullish (splitOn CHR ''.'' token) data then Inl TypeError
      else Inr (case resolvePath (splitOn CHR ''.'' token) data of None \<Rightarrow> Str [] | Some v \<Rightarrow> v))"
    by (simp add: tokenFilter_def walkPath_cases)
  show "resolveToken initialFilters token data template =
     (if reachesNullish (splitOn CHR ''.'' token) data then Str []
      else (case resolvePath (splitOn CHR ''.'' token) data of
              None \<Rightarrow> Str []
            | Some v \<Rightarrow> if v = Undefined then Str [] else v))"
    by (rule resolveToken_initialFilters)
  assume "reachesNullish (splitOn CHR ''.'' token) data \<and> findClosing token tokens = None \<and> flag \<noteq> ''/''"
  then show "substituteFrom initialFilters template (Token flag token # tokens) data rt
        = substituteFrom initialFilters template tokens data rt"
    by (simp add: substituteFrom.simps(3) resolveToken_initialFilters emit_Nil)
qed

text \<open>\<^verbatim>\<open>x[a.b]y\<close> against \<^verbatim>\<open>{a: null}\<close> renders \<^verbatim>\<open>xy\<close>.\<close>

theorem tokenFilter_walk_witness:
  "reachesNullish (splitOn CHR ''.'' ''a.b'') (Obj [(''a'', Null)]) \<and>
   findClosing ''a.b'' [Static ''y''] = None \<and>
   tokenizeTemplate ''x[a.b]y'' = [Static ''x'', Token [] ''a.b'', Static ''y''] \<and>
   substituteFrom initialFilters ''x[a.b]y'' (Token [] ''a.b'' # [Static ''y'']) (Obj [(''a'', Null)])
       initialRuntime = (''y'', initialRuntime) \<and>
   substitute initialFilters ''x[a.b]y'' (Obj [(''a'', Null)]) initialRuntime = (''xy'', initialRuntime)"
proof -
  have h: "reachesNullish (splitOn CHR ''.'' ''a.b'') (Obj [(''a'', Null)])"
    by code_simp
  have f: "findClosing ''a.b'' [Static ''y''] = None"
    by simp
  have "[] \<noteq> ''/''" by simp
  with h f tokenFilter_walk [where token = "''a.b''" and data = "Obj [(''a'', Null)]"
      and tokens = "[Static ''y'']" and flag = "[]" and template = "''x[a.b]y''" and rt = initialRuntime]
  have "substituteFrom initialFilters ''x[a.b]y'' (Token [] ''a.b'' # [Static ''y'']) (Obj [(''a'', Null)])
       initialRuntime
     = substituteFrom initialFilters ''x[a.b]y'' [Static ''y''] (Obj [(''a'', Null)]) initialRuntime"
    by blast
  then have s: "substituteFrom initialFilters ''x[a.b]y'' (Token [] ''a.b'' # [Static ''y'']) (Obj [(''a'', Null)])
       initialRuntime = (''y'', initialRuntime)"
    by (simp add: emit_def)
  have t: "tokenizeTemplate ''x[a.b]y'' = [Static ''x'', Token [] ''a.b'', Static ''y'']"
    by code_simp
  have "substitute initialFilters ''x[a.b]y'' (Obj [(''a'', Null)]) initialRuntime = (''xy'', initialRuntime)"
    using s by (simp add: substitute.simps t emit_def)
  with h f s t show ?thesis by simp
qed

subsection \<open>Iteration entries and their identifiers\<close>












subsection \<open>Rendering twice\<close>













subsection \<open>The token cache\<close>

lemma getTokens_sound:
  assumes "cacheSound tokenCache"
  shows "fst (getTokens template tokenCache) = tokenizeTemplate template"
    and "cacheSound (snd (getTokens template tokenCache))"
  using assms by (auto simp: getTokens_def cacheSound_def Let_def split: option.splits)

section \<open>The document reconciler\<close>

text \<open>
  A node of the document: a text node, a comment, or an element with its node name, its
  attributes (names are unique in an element) and its children. \<^verbatim>\<open>diffNodes\<close> changes the
  live tree in place; the model returns the node that stands in the place of \<^verbatim>\<open>oldNode\<close>
  once the call is over. \<^verbatim>\<open>setAttribute\<close> is taken to accept every name the parser gave an
  attribute of the new tree.
\<close>

datatype node =
    TextNode string
  | CommentNode string
  | Element string "(string \<times> string) list" "node list"

definition nodeType :: "node \<Rightarrow> nat" where
  "nodeType n = (case n of Element _ _ _ \<Rightarrow> 1 | TextNode _ \<Rightarrow> 3 | CommentNode _ \<Rightarrow> 8)"

definition nodeName :: "node \<Rightarrow> string" where
  "nodeName n = (case n of Element tag _ _ \<Rightarrow> tag | TextNode _ \<Rightarrow> ''#text'' | CommentNode _ \<Rightarrow> ''#comment'')"

definition attributesOf :: "node \<Rightarrow> (string \<times> string) list" where
  "attributesOf n = (case n of Element _ attrs _ \<Rightarrow> attrs | _ \<Rightarrow> [])"

definition getAttribute :: "(string \<times> string) list \<Rightarrow> string \<Rightarrow> string option" where
  \<comment> \<open>\<open>None\<close> is \<^verbatim>\<open>null\<close>\<close>
  "getAttribute attrs name = map_of attrs name"

definition hasAttribute :: "(string \<times> string) list \<Rightarrow> string \<Rightarrow> bool" where
  "hasAttribute attrs name = (name \<in> set (map fst attrs))"

definition setAttribute :: "string \<Rightarrow> string \<Rightarrow> (string \<times> string) list \<Rightarrow> (string \<times> string) list" where
  "setAttribute name v attrs = AList.update name v attrs"

definition removeAttribute :: "string \<Rightarrow> (string \<times> string) list \<Rightarrow> (string \<times> string) list" where
  "removeAttribute name attrs = AList.delete name attrs"

definition startsWith :: "string \<Rightarrow> char \<Rightarrow> bool" where
  "startsWith s c = (case s of [] \<Rightarrow> False | x # _ \<Rightarrow> x = c)"

definition isMarker :: "string \<Rightarrow> bool" where
  \<comment> \<open>\<^verbatim>\<open>attr.name.startsWith("@") || attr.name.startsWith("#")\<close>\<close>
  "isMarker name = (startsWith name CHR ''@'' \<or> startsWith name CHR ''#'')"

text \<open>The first \<^verbatim>\<open>forEach\<close>: the attributes of the new node, written on the old one.\<close>

definition copyAttributes :: "(string \<times> string) list \<Rightarrow> (string \<times> string) list \<Rightarrow> (string \<times> string) list" where
  "copyAttributes newAttrs oldAttrs =
     fold (\<lambda>attr old.
             if isMarker (fst attr) then old
             else if getAttribute old (fst attr) \<noteq> Some (snd attr)
                  then setAttribute (fst attr) (snd attr) old
                  else old)
       newAttrs oldAttrs"

text \<open>
  The second \<^verbatim>\<open>forEach\<close>, over the attributes the old node has when it starts: those the new
  node lacks are removed.
\<close>

definition dropAttributes :: "(string \<times> string) list \<Rightarrow> (string \<times> string) list \<Rightarrow> (string \<times> string) list" where
  "dropAttributes newAttrs oldAttrs =
     fold (\<lambda>attr old.
             if isMarker (fst attr) then old
             else if \<not> hasAttribute newAttrs (fst attr) then removeAttribute (fst attr) old
                  else old)
       oldAttrs oldAttrs"

fun diffNodes :: "node \<Rightarrow> node \<Rightarrow> node"
  and diffChildren :: "node list \<Rightarrow> node list \<Rightarrow> node list"
where
  "diffNodes oldNode newNode =
     (if nodeType oldNode \<noteq> nodeType newNode \<or> nodeName oldNode \<noteq> nodeName newNode then newNode
      else
        (case oldNode of
           TextNode t \<Rightarrow>
             (case newNode of TextNode t' \<Rightarrow> if t \<noteq> t' then TextNode t' else oldNode | _ \<Rightarrow> oldNode)
         | CommentNode _ \<Rightarrow> oldNode
         | Element tag attrs oldChildren \<Rightarrow>
             (case newNode of
                Element _ newAttrs newChildren \<Rightarrow>
                  Element tag (dropAttributes newAttrs (copyAttributes newAttrs attrs))
                    (diffChildren oldChildren newChildren)
              | _ \<Rightarrow> oldNode)))"
| "diffChildren [] newChildren = newChildren"
| "diffChildren (old # oldChildren) [] = []"
| "diffChildren (old # oldChildren) (new # newChildren) =
     diffNodes old new # diffChildren oldChildren newChildren"


lemma filter_update_other:
  "\<not> P k \<Longrightarrow> filter (\<lambda>a. P (fst a)) (AList.update k v al) = filter (\<lambda>a. P (fst a)) al"
  by (induction al) auto

lemma filter_delete_other:
  "\<not> P k \<Longrightarrow> filter (\<lambda>a. P (fst a)) (AList.delete k al) = filter (\<lambda>a. P (fst a)) al"
  by (induction al) auto

lemma copyAttributes_markers:
  "filter (\<lambda>a. isMarker (fst a)) (copyAttributes newAttrs oldAttrs) = filter (\<lambda>a. isMarker (fst a)) oldAttrs"
  unfolding copyAttributes_def
  by (induction newAttrs arbitrary: oldAttrs) (simp_all add: setAttribute_def filter_update_other)

lemma dropAttributes_fold_markers:
  "filter (\<lambda>a. isMarker (fst a))
     (fold (\<lambda>attr old.
             if isMarker (fst attr) then old
             else if \<not> hasAttribute newAttrs (fst attr) then removeAttribute (fst attr) old
                  else old) xs oldAttrs)
   = filter (\<lambda>a. isMarker (fst a)) oldAttrs"
  by (induction xs arbitrary: oldAttrs) (simp_all add: removeAttribute_def filter_delete_other)

lemma dropAttributes_markers:
  "filter (\<lambda>a. isMarker (fst a)) (dropAttributes newAttrs oldAttrs) = filter (\<lambda>a. isMarker (fst a)) oldAttrs"
  unfolding dropAttributes_def by (rule dropAttributes_fold_markers)

text \<open>
  Claim C1, amended: when a live element is diffed against a new element of the same node
  name, the attributes of the live element whose name starts with \<^verbatim>\<open>@\<close> or \<^verbatim>\<open>#\<close> (the
  event directives and the references) are after the diff what they were before, same names,
  same values, same order: none is overwritten from the new node, none is removed for being
  absent from it. The attribute \<^verbatim>\<open>data-potion-key\<close>, the mark of an iteration entry, starts
  with neither character and is diffed like any other attribute.
\<close>

theorem diff_keeps_markers:
  "filter (\<lambda>a. isMarker (fst a))
     (attributesOf (diffNodes (Element tag attrs children) (Element tag newAttrs newChildren)))
   = filter (\<lambda>a. isMarker (fst a)) attrs"
  by (simp add: nodeType_def nodeName_def attributesOf_def dropAttributes_markers copyAttributes_markers)

text \<open>
  Claim C1, as stated, counts the position marker \<^verbatim>\<open>data-potion-key\<close> among the attributes
  the diff leaves alone. Its name starts with \<^verbatim>\<open>d\<close>: the diff overwrites it with the value
  of the new node, and removes it when the new node has none.
\<close>

theorem diff_position_marker_counterexample:
  "\<not> isMarker ''data-potion-key'' \<and>
   diffNodes (Element ''LI'' [(''data-potion-key'', ''potion_0'')] [])
             (Element ''LI'' [(''data-potion-key'', ''potion_1'')] [])
     = Element ''LI'' [(''data-potion-key'', ''potion_1'')] [] \<and>
   diffNodes (Element ''LI'' [(''data-potion-key'', ''potion_0'')] []) (Element ''LI'' [] [])
     = Element ''LI'' [] []"
  by code_simp

section \<open>The reactive wrapper\<close>

text \<open>
  The \<^verbatim>\<open>set\<close> trap of the handler that \<^verbatim>\<open>deepProxy\<close> builds is four steps on the target
  \<^verbatim>\<open>obj\<close>: read \<^verbatim>\<open>obj[prop]\<close>, call \<^verbatim>\<open>Reflect.set(obj, prop, value)\<close>, compare the value read
  with the value written by \<^verbatim>\<open>!==\<close>, call \<^verbatim>\<open>onChange()\<close>. What the first two do is the
  business of the target (an own or an inherited property, a getter or a setter, a frozen
  object, another proxy), the comparison that of the language, the last that of the caller:
  the four are parameters of the model, on a state of the program that is a parameter too, and
  each of the three calls may throw.
\<close>

record ('h, 'o, 'k, 'v) host =
  getMember :: "'o \<Rightarrow> 'k \<Rightarrow> 'h \<Rightarrow> (error + 'v) \<times> 'h"  \<comment> \<open>\<^verbatim>\<open>obj[prop]\<close>\<close>
  reflectSet :: "'o \<Rightarrow> 'k \<Rightarrow> 'v \<Rightarrow> 'h \<Rightarrow> (error + bool) \<times> 'h"  \<comment> \<open>\<^verbatim>\<open>Reflect.set(obj, prop, value)\<close>\<close>
  strictEquals :: "'v \<Rightarrow> 'v \<Rightarrow> bool"  \<comment> \<open>\<^verbatim>\<open>===\<close>\<close>
  onChange :: "'h \<Rightarrow> (error + unit) \<times> 'h"  \<comment> \<open>\<^verbatim>\<open>onChange()\<close>\<close>

text \<open>What the trap has done, in the order it did it.\<close>

datatype event =
    Written bool  \<comment> \<open>\<^verbatim>\<open>Reflect.set\<close> has returned, with this result\<close>
  | Notified  \<comment> \<open>\<^verbatim>\<open>onChange\<close> has been called\<close>

record 'h world =
  state :: 'h
  events :: "event list"

definition setTrap ::
  "('h, 'o, 'k, 'v) host \<Rightarrow> 'o \<Rightarrow> 'k \<Rightarrow> 'v \<Rightarrow> 'h world \<Rightarrow> (error + bool) \<times> 'h world" where
  "setTrap host obj prop v w =
     (case getMember host obj prop (state w) of
        (Inl e, h1) \<Rightarrow> (Inl e, w \<lparr> state := h1 \<rparr>)
      | (Inr oldValue, h1) \<Rightarrow>
          (case reflectSet host obj prop v h1 of
             (Inl e, h2) \<Rightarrow> (Inl e, w \<lparr> state := h2 \<rparr>)
           | (Inr result, h2) \<Rightarrow>
               if \<not> strictEquals host oldValue v then
                 (case onChange host h2 of
                    (Inl e, h3) \<Rightarrow>
                      (Inl e, \<lparr> state = h3, events = events w @ [Written result, Notified] \<rparr>)
                  | (Inr u, h3) \<Rightarrow>
                      (Inr result, \<lparr> state = h3, events = events w @ [Written result, Notified] \<rparr>))
               else (Inr result, \<lparr> state = h2, events = events w @ [Written result] \<rparr>)))"

definition notifications :: "'h world \<Rightarrow> nat" where
  "notifications w = length (filter (\<lambda>e. e = Notified) (events w))"

subsection \<open>Objects with data properties\<close>

text \<open>
  One target the trap can be given: an object without a prototype
  (\<^verbatim>\<open>Object.create(null)\<close>) whose properties are data properties, each writable or not, on an
  object that is extensible or not; frozen, it has no writable property and is not
  extensible. An object literal behaves the same at every name that \<^verbatim>\<open>Object.prototype\<close>
  does not define. A value is a primitive or the identity of an object; a number is a
  double, of which only the equality matters here.
\<close>

datatype number = NaN | NegZero | PosInfinity | NegInfinity | Finite rat

datatype hvalue =
    HUndefined
  | HNull
  | HBool bool
  | HNum number
  | HStr string
  | HObj nat  \<comment> \<open>an object, a function or a proxy, by its identity\<close>

definition strictEq :: "hvalue \<Rightarrow> hvalue \<Rightarrow> bool" where
  "strictEq a b =
     (case (a, b) of
        (HNum x, HNum y) \<Rightarrow>
          x \<noteq> NaN \<and> y \<noteq> NaN \<and>
          (x = y \<or> (x = NegZero \<and> y = Finite 0) \<or> (x = Finite 0 \<and> y = NegZero))
      | _ \<Rightarrow> a = b)"

record dataObject =
  properties :: "(string \<times> hvalue \<times> bool) list"  \<comment> \<open>name, value, writable\<close>
  extensible :: bool

type_synonym heap = "nat \<Rightarrow> dataObject"

definition plainGet :: "nat \<Rightarrow> string \<Rightarrow> heap \<Rightarrow> (error + hvalue) \<times> heap" where
  "plainGet obj prop h =
     (Inr (case map_of (properties (h obj)) prop of None \<Rightarrow> HUndefined | Some (v, writable) \<Rightarrow> v), h)"

definition plainSet :: "nat \<Rightarrow> string \<Rightarrow> hvalue \<Rightarrow> heap \<Rightarrow> (error + bool) \<times> heap" where
  "plainSet obj prop v h =
     (case map_of (properties (h obj)) prop of
        Some (old, writable) \<Rightarrow>
          if writable
          then (Inr True, h(obj := (h obj) \<lparr> properties := AList.update prop (v, True) (properties (h obj)) \<rparr>))
          else (Inr False, h)
      | None \<Rightarrow>
          if extensible (h obj)
          then (Inr True, h(obj := (h obj) \<lparr> properties := AList.update prop (v, True) (properties (h obj)) \<rparr>))
          else (Inr False, h))"

definition plainHost :: "(heap, nat, string, hvalue) host" where
  \<comment> \<open>with a callback that does nothing to the objects\<close>
  "plainHost = \<lparr> getMember = plainGet, reflectSet = plainSet, strictEquals = strictEq,
                 onChange = (\<lambda>h. (Inr (), h)) \<rparr>"

definition wrapped :: "hvalue \<Rightarrow> bool \<Rightarrow> heap world" where
  \<comment> \<open>\<^verbatim>\<open>{a: v}\<close> at address 0, frozen or not, and nothing has happened yet\<close>
  "wrapped v frozen =
     \<lparr> state = (\<lambda>_. \<lparr> properties = [], extensible = True \<rparr>)
                 (0 := \<lparr> properties = [(''a'', v, \<not> frozen)], extensible = \<not> frozen \<rparr>),
       events = [] \<rparr>"


text \<open>\<^verbatim>\<open>NaN\<close> written over \<^verbatim>\<open>NaN\<close>: the two differ under \<^verbatim>\<open>!==\<close>, and the callback is called.\<close>

lemma set_nan_example:
  "notifications (snd (setTrap plainHost 0 ''a'' (HNum NaN) (wrapped (HNum NaN) False))) = 1"
  by (simp add: setTrap_def notifications_def plainHost_def plainGet_def plainSet_def strictEq_def
      wrapped_def)


section \<open>Event arguments\<close>

text \<open>
  \<^verbatim>\<open>isNaN(arg)\<close> and \<^verbatim>\<open>Number(arg)\<close> convert the text to a number the way the language
  does; the conversion is a parameter: \<open>toNumber arg\<close> is \<open>None\<close> when the text is not a number.
\<close>

definition isLineTerminator :: "char \<Rightarrow> bool" where
  "isLineTerminator c = (c = CHR 0x0A \<or> c = CHR 0x0D)"

definition isQuote :: "char \<Rightarrow> bool" where
  "isQuote c = (c = CHR 0x22 \<or> c = CHR 0x27)"

definition quotedText :: "string \<Rightarrow> string option" where
  \<comment> \<open>\<^verbatim>\<open>arg.match(/^["'](.*)["']$/)\<close>: the first capture group\<close>
  "quotedText arg =
     (if 2 \<le> length arg \<and> isQuote (hd arg) \<and> isQuote (last arg)
         \<and> \<not> list_ex isLineTerminator (butlast (tl arg))
      then Some (butlast (tl arg)) else None)"

definition parseEventArgs :: "(string \<Rightarrow> int option) \<Rightarrow> string \<Rightarrow> jsval \<Rightarrow> jsval" where
  "parseEventArgs toNumber arg data =
     (if arg = ''true'' then Bool True
      else if arg = ''false'' then Bool False
      else
        (case toNumber arg of
           Some n \<Rightarrow> Num n
         | None \<Rightarrow>
             (case quotedText arg of
                Some m \<Rightarrow> Str m
              | None \<Rightarrow> if truthy (getProp data arg) then getProp data arg else Str arg)))"

text \<open>The conversion on the decimal integers, and on the blank text, which is the number 0.\<close>

definition decimalNumber :: "string \<Rightarrow> int option" where
  "decimalNumber s =
     (let t = trim s;
          digits = (case t of [] \<Rightarrow> [] | c # r \<Rightarrow> if c = CHR ''-'' \<or> c = CHR ''+'' then r else t);
          magnitude = foldl (\<lambda>n c. 10 * n + (int (of_char c) - 48)) 0 digits
      in if t = [] then Some 0
         else if digits \<noteq> [] \<and> list_all isDigit digits
         then Some (if hd t = CHR ''-'' then - magnitude else magnitude)
         else None)"


lemma parseEventArgs_literals:
  "parseEventArgs toNumber ''true'' data = Bool True"
  "parseEventArgs toNumber ''false'' data = Bool False"
  "arg \<noteq> ''true'' \<Longrightarrow> arg \<noteq> ''false'' \<Longrightarrow> toNumber arg = Some n \<Longrightarrow> parseEventArgs toNumber arg data = Num n"
  "arg \<noteq> ''true'' \<Longrightarrow> arg \<noteq> ''false'' \<Longrightarrow> toNumber arg = None \<Longrightarrow> quotedText arg = Some m \<Longrightarrow>
     parseEventArgs toNumber arg data = Str m"
  by (simp_all add: parseEventArgs_def)

text \<open>
  Claim C8 has a bare identifier resolve to the value of the property whenever the property is
  present, whatever the value. \<^verbatim>\<open>data[arg] || arg\<close> takes the text of the identifier when the
  value is falsy: with the property \<^verbatim>\<open>count\<close> present and equal to 0, to \<^verbatim>\<open>false\<close> or to the
  empty string, the argument \<^verbatim>\<open>count\<close> is parsed to the text \<^verbatim>\<open>count\<close>.
\<close>

theorem parseEventArgs_falsy:
  "toNumber ''count'' = None \<Longrightarrow>
   parseEventArgs toNumber ''count'' (Obj [(''count'', Num 0)]) = Str ''count'' \<and>
   parseEventArgs toNumber ''count'' (Obj [(''count'', Bool False)]) = Str ''count'' \<and>
   parseEventArgs toNumber ''count'' (Obj [(''count'', Str [])]) = Str ''count''"
  by (simp add: parseEventArgs_def quotedText_def isQuote_def getProp_def truthy_def)

theorem parseEventArgs_falsy_witness:
  "decimalNumber ''count'' = None \<and>
   parseEventArgs decimalNumber ''count'' (Obj [(''count'', Num 0)]) = Str ''count''"
proof -
  have h: "decimalNumber ''count'' = None" by code_simp
  from parseEventArgs_falsy [of decimalNumber, OF h] h show ?thesis by simp
qed

end
